theory Spec2Isabelle
  imports Main "HOL-Library.Word" "HOL-Library.Sublist"
begin

section \<open>Task lifecycle state machine with observer notification\<close>

text \<open>
  A shallow embedding of \<^verbatim>\<open>TaskManagementSystem.cpp\<close>. Conventions:
  \<^item> a class is a record of its fields, an enum or a closed family of subclasses is a
    datatype with one constructor per enumerator or subclass;
  \<^item> \<^verbatim>\<open>unique_ptr<TaskState>\<close> and \<^verbatim>\<open>shared_ptr<TaskObserver>\<close> are
    \<open>option\<close>s, \<open>None\<close> being the null pointer;
  \<^item> a \<^verbatim>\<open>void\<close> member function takes the receiver and returns it after the call;
    a member function that returns a value and writes no field returns the value alone;
  \<^item> everything written to \<^verbatim>\<open>std::cout\<close> is appended to the field \<open>cout\<close> of the
    \<open>world\<close>, which is passed through every function that prints;
  \<^item> undefined behaviour (a call through a null pointer, a read of a variable or of a
    buffer that was never filled) stops the model with a \<open>fault\<close>, the left summand
    of the result.
  Where two classes have a member of the same name, the class name is prefixed.
\<close>

subsection \<open>Data\<close>

datatype TaskPriority = HIGH | MEDIUM | LOW

text \<open>The four subclasses of \<^verbatim>\<open>TaskState\<close>; none has a field.\<close>

datatype TaskState = CreateState | InProgressState | CompletedState | CancelledState

text \<open>The two subclasses of \<^verbatim>\<open>TaskObserver\<close>, with their \<^verbatim>\<open>email\<close> and
  \<^verbatim>\<open>phone\<close> fields.\<close>

datatype TaskObserver = EmailTaskObserver string | SMSTaskObserver string

text \<open>
  The world outside the objects: the text written to \<^verbatim>\<open>std::cout\<close> so far, and the
  trace of the calls of the virtual \<^verbatim>\<open>TaskObserver::Update\<close>, each with its receiver
  and its argument, in the order of the calls.
\<close>

record world =
  cout :: string
  updates :: "(TaskObserver \<times> string) list"

datatype fault = NullObserver | InvalidTm | DateBufferOverflow

record TaskContext =
  currentTaskState :: "TaskState option"
  taskObservers :: "TaskObserver option list"

type_synonym time_t = "64 word"

record Task =
  Id' :: "32 word"
  taskTitle :: string
  taskDescription :: string
  startDate :: time_t
  endDate :: time_t
  taskPriority :: TaskPriority
  taskContext :: TaskContext

record TaskManager =
  task :: Task

text \<open>The fields of \<^verbatim>\<open>struct tm\<close> that the format \<^verbatim>\<open>%Y-%m-%d\<close> reads; each is an
  \<^verbatim>\<open>int\<close>.\<close>

record tm =
  tm_year :: "32 word"
  tm_mon :: "32 word"
  tm_mday :: "32 word"

subsection \<open>Output\<close>

definition endl :: string where
  "endl = [CHR 0x0A]"

definition emit :: "string \<Rightarrow> world \<Rightarrow> world" where
  "emit s w = w\<lparr>cout := cout w @ s\<rparr>"

text \<open>The decimal text that \<^verbatim>\<open>operator<<\<close> prints for an \<^verbatim>\<open>int\<close>.\<close>

definition digit_char :: "nat \<Rightarrow> char" where
  "digit_char n = ''0123456789'' ! n"

fun digits10 :: "nat \<Rightarrow> string" where
  "digits10 n = (if n < 10 then [digit_char n] else digits10 (n div 10) @ [digit_char (n mod 10)])"

definition show_int :: "int \<Rightarrow> string" where
  "show_int i = (if i < 0 then CHR ''-'' # digits10 (nat (- i)) else digits10 (nat i))"

text \<open>
  \<^verbatim>\<open>strftime\<close> for the conversions the program uses. \<^verbatim>\<open>%Y\<close> prints the year
  \<^verbatim>\<open>tm_year + 1900\<close> in decimal, neither padded nor cut; \<^verbatim>\<open>%m\<close> prints \<^verbatim>\<open>tm_mon + 1\<close>
  and \<^verbatim>\<open>%d\<close> prints \<^verbatim>\<open>tm_mday\<close>, each with a leading zero when it has one digit and
  in full, sign included, when it has more than two characters. The sums are sums of
  \<^verbatim>\<open>int\<close>: they wrap at 32 bits. Any other character is copied.
\<close>

definition two_digits :: "32 word \<Rightarrow> string" where
  "two_digits n =
     (let s = show_int (sint n) in if length s < 2 then CHR ''0'' # s else s)"

fun strftime :: "string \<Rightarrow> tm \<Rightarrow> string" where
  "strftime (c # d # fmt) t =
     (if c = CHR ''%'' \<and> d = CHR ''Y'' then show_int (sint (tm_year t + 1900)) @ strftime fmt t
      else if c = CHR ''%'' \<and> d = CHR ''m'' then two_digits (tm_mon t + 1) @ strftime fmt t
      else if c = CHR ''%'' \<and> d = CHR ''d'' then two_digits (tm_mday t) @ strftime fmt t
      else c # strftime (d # fmt) t)"
| "strftime fmt t = fmt"

subsection \<open>Observers\<close>

fun Update :: "TaskObserver \<Rightarrow> string \<Rightarrow> world \<Rightarrow> world" where
  "Update (EmailTaskObserver email) message w =
     emit (''Email: '' @ email @ '' , message is '' @ message @ endl)
       (w\<lparr>updates := updates w @ [(EmailTaskObserver email, message)]\<rparr>)"
| "Update (SMSTaskObserver phone) message w =
     emit (''SMS : '' @ phone @ '' , message is '' @ message @ endl)
       (w\<lparr>updates := updates w @ [(SMSTaskObserver phone, message)]\<rparr>)"

subsection \<open>TaskContext\<close>

definition new_TaskContext :: "TaskState option \<Rightarrow> TaskContext" where
  "new_TaskContext newState = \<lparr>currentTaskState = newState, taskObservers = []\<rparr>"

definition setState :: "TaskContext \<Rightarrow> TaskState option \<Rightarrow> TaskContext" where
  "setState context newState = context\<lparr>currentTaskState := newState\<rparr>"

definition TaskContext_addTaskObserver :: "TaskContext \<Rightarrow> TaskObserver option \<Rightarrow> TaskContext" where
  "TaskContext_addTaskObserver context observer =
     context\<lparr>taskObservers := taskObservers context @ [observer]\<rparr>"

text \<open>The range-based loop of \<^verbatim>\<open>notify\<close>; \<^verbatim>\<open>observer->Update\<close> on a null pointer is
  the fault.\<close>

fun notify_loop :: "TaskObserver option list \<Rightarrow> string \<Rightarrow> world \<Rightarrow> fault + world" where
  "notify_loop [] message w = Inr w"
| "notify_loop (None # observers) message w = Inl NullObserver"
| "notify_loop (Some observer # observers) message w =
     notify_loop observers message (Update observer message w)"

definition notify :: "TaskContext \<Rightarrow> string \<Rightarrow> world \<Rightarrow> fault + TaskContext \<times> world" where
  "notify context message w =
     (case notify_loop (taskObservers context) message w of
        Inl f \<Rightarrow> Inl f
      | Inr w' \<Rightarrow> Inr (context, w'))"

text \<open>\<^verbatim>\<open>TaskState::handle\<close>, one equation per overriding subclass.\<close>

fun handle :: "TaskState \<Rightarrow> TaskContext \<Rightarrow> world \<Rightarrow> fault + TaskContext \<times> world" where
  "handle CreateState context w =
     (let message = ''Task has been created...''
      in notify context message (emit (message @ endl) w))"
| "handle InProgressState context w =
     (let message = ''Task has been changed to InProgress...''
      in notify context message (emit (message @ endl) w))"
| "handle CompletedState context w =
     (let message = ''Task has been completed...''
      in notify context message (emit (message @ endl) w))"
| "handle CancelledState context w =
     (let message = ''Task has been Cancelled...''
      in notify context message (emit (message @ endl) w))"

text \<open>\<^verbatim>\<open>TaskState::getCurrentState\<close>, one equation per overriding subclass.\<close>

fun TaskState_getCurrentState :: "TaskState \<Rightarrow> string" where
  "TaskState_getCurrentState CreateState = ''Created''"
| "TaskState_getCurrentState InProgressState = ''InProgress''"
| "TaskState_getCurrentState CompletedState = ''Completed''"
| "TaskState_getCurrentState CancelledState = ''Cancelled''"

definition executeState :: "TaskContext \<Rightarrow> world \<Rightarrow> fault + TaskContext \<times> world" where
  "executeState context w =
     (case currentTaskState context of
        Some s \<Rightarrow> handle s context w
      | None \<Rightarrow> Inr (context, w))"

definition getCurrentState :: "TaskContext \<Rightarrow> string" where
  "getCurrentState context =
     (case currentTaskState context of
        Some s \<Rightarrow> TaskState_getCurrentState s
      | None \<Rightarrow> ''Invalid State'')"

subsection \<open>Task\<close>

text \<open>
  The private constructor. \<open>now\<close> is what \<^verbatim>\<open>std::time(nullptr)\<close> returns. The members
  are initialised in the order of their declaration, so \<^verbatim>\<open>endDate\<close> reads the
  initialised \<^verbatim>\<open>startDate\<close>; \<^verbatim>\<open>taskDescription\<close> is default-constructed. The two
  days are added in the 64 bits of \<^verbatim>\<open>time_t\<close>; the word addition wraps where C++
  leaves the signed overflow undefined, which no time returned by the clock reaches.
  The body runs the entry action of the first state.
\<close>

definition new_Task ::
  "32 word \<Rightarrow> string \<Rightarrow> TaskPriority \<Rightarrow> time_t \<Rightarrow> world \<Rightarrow> fault + Task \<times> world" where
  "new_Task id' title priority now w =
     (let t = \<lparr>Id' = id', taskTitle = title, taskDescription = [],
                startDate = now, endDate = now + 2 * 24 * 60 * 60,
                taskPriority = priority,
                taskContext = new_TaskContext (Some CreateState)\<rparr>
      in case executeState (taskContext t) w of
           Inl f \<Rightarrow> Inl f
         | Inr (c, w') \<Rightarrow> Inr (t\<lparr>taskContext := c\<rparr>, w'))"

definition setTitle :: "Task \<Rightarrow> string \<Rightarrow> Task" where
  "setTitle t title = t\<lparr>taskTitle := title\<rparr>"

definition Task_setDescription :: "Task \<Rightarrow> string \<Rightarrow> Task" where
  "Task_setDescription t desc = t\<lparr>taskDescription := desc\<rparr>"

definition Task_setStartDate :: "Task \<Rightarrow> time_t \<Rightarrow> Task" where
  "Task_setStartDate t d = t\<lparr>startDate := d\<rparr>"

definition Task_setEndDate :: "Task \<Rightarrow> time_t \<Rightarrow> Task" where
  "Task_setEndDate t d = t\<lparr>endDate := d\<rparr>"

definition setTaskPriority :: "Task \<Rightarrow> TaskPriority \<Rightarrow> Task" where
  "setTaskPriority t priority = t\<lparr>taskPriority := priority\<rparr>"

definition Task_addTaskObserver :: "Task \<Rightarrow> TaskObserver option \<Rightarrow> Task" where
  "Task_addTaskObserver t observer =
     t\<lparr>taskContext := TaskContext_addTaskObserver (taskContext t) observer\<rparr>"

definition changeState :: "Task \<Rightarrow> TaskState option \<Rightarrow> world \<Rightarrow> fault + Task \<times> world" where
  "changeState t newState w =
     (let t1 = t\<lparr>taskContext := setState (taskContext t) newState\<rparr>
      in case executeState (taskContext t1) w of
           Inl f \<Rightarrow> Inl f
         | Inr (c, w') \<Rightarrow> Inr (t1\<lparr>taskContext := c\<rparr>, w'))"

definition getCurrentTaskPriorityInString :: "Task \<Rightarrow> string" where
  "getCurrentTaskPriorityInString t =
     (if taskPriority t = HIGH then ''High''
      else if taskPriority t = MEDIUM then ''Medium''
      else if taskPriority t = LOW then ''Low''
      else ''Invalid'')"

text \<open>
  \<^verbatim>\<open>print\<close>. The conversion of a \<^verbatim>\<open>time_t\<close> to the local broken-down time depends on
  the time zone of the host, so \<^verbatim>\<open>localtime_s\<close> is a parameter. It can fail: it then
  returns an error code, which \<^verbatim>\<open>print\<close> does not look at, and the local
  \<^verbatim>\<open>struct tm\<close> is not a date (\<open>None\<close>); formatting it is the fault \<open>InvalidTm\<close>.
  Each date goes through a buffer of 20 characters: a text of 20 characters or more
  does not fit with its terminator, \<^verbatim>\<open>strftime\<close> then leaves the buffer indeterminate,
  and printing it is the fault \<open>DateBufferOverflow\<close>.
\<close>

definition print :: "(time_t \<Rightarrow> tm option) \<Rightarrow> Task \<Rightarrow> world \<Rightarrow> fault + Task \<times> world" where
  "print localtime_s t w =
     (case localtime_s (startDate t) of
        None \<Rightarrow> Inl InvalidTm
      | Some startDt \<Rightarrow>
     (case localtime_s (endDate t) of
        None \<Rightarrow> Inl InvalidTm
      | Some endDt \<Rightarrow>
     (let startDateStr = strftime ''%Y-%m-%d'' startDt;
          endDateStr = strftime ''%Y-%m-%d'' endDt
      in if length startDateStr < 20 \<and> length endDateStr < 20 then
           Inr (t,
             emit (''Task Status: '' @ getCurrentState (taskContext t) @ endl)
            (emit (''Start Date: '' @ startDateStr @ '', End Date: '' @ endDateStr @ endl)
            (emit (''Description: '' @ taskDescription t @ endl)
            (emit (''Title: '' @ taskTitle t @ endl)
            (emit (''Id: '' @ show_int (sint (Id' t)) @ '', Priority: ''
                      @ getCurrentTaskPriorityInString t @ endl)
            (emit (''Task Details'' @ endl) w))))))
         else Inl DateBufferOverflow)))"

subsection \<open>TaskManager, the builder\<close>

definition new_TaskManager ::
  "32 word \<Rightarrow> string \<Rightarrow> TaskPriority \<Rightarrow> time_t \<Rightarrow> world \<Rightarrow> fault + TaskManager \<times> world" where
  "new_TaskManager id' title priority now w =
     (case new_Task id' title priority now w of
        Inl f \<Rightarrow> Inl f
      | Inr (t, w') \<Rightarrow> Inr (\<lparr>task = t\<rparr>, w'))"

definition TaskManager_setDescription :: "TaskManager \<Rightarrow> string \<Rightarrow> TaskManager" where
  "TaskManager_setDescription m description = m\<lparr>task := (task m)\<lparr>taskDescription := description\<rparr>\<rparr>"

definition setPriority :: "TaskManager \<Rightarrow> TaskPriority \<Rightarrow> TaskManager" where
  "setPriority m priority = m\<lparr>task := (task m)\<lparr>taskPriority := priority\<rparr>\<rparr>"

definition TaskManager_setStartDate :: "TaskManager \<Rightarrow> time_t \<Rightarrow> TaskManager" where
  "TaskManager_setStartDate m d = m\<lparr>task := (task m)\<lparr>startDate := d\<rparr>\<rparr>"

definition TaskManager_setEndDate :: "TaskManager \<Rightarrow> time_t \<Rightarrow> TaskManager" where
  "TaskManager_setEndDate m d = m\<lparr>task := (task m)\<lparr>endDate := d\<rparr>\<rparr>"

definition TaskManager_addTaskObserver :: "TaskManager \<Rightarrow> TaskObserver option \<Rightarrow> TaskManager" where
  "TaskManager_addTaskObserver m observer = m\<lparr>task := Task_addTaskObserver (task m) observer\<rparr>"

text \<open>
  The implicit move constructor of \<^verbatim>\<open>Task\<close> and of \<^verbatim>\<open>TaskContext\<close>: it returns the
  new object and what is left in the source object. Scalars are copied; a moved-from
  \<^verbatim>\<open>unique_ptr\<close> is null and a moved-from \<^verbatim>\<open>vector\<close> is empty; a moved-from
  \<^verbatim>\<open>string\<close> is valid but unspecified, so what it holds is the parameter \<open>residue\<close>.
\<close>

definition move_TaskContext :: "TaskContext \<Rightarrow> TaskContext \<times> TaskContext" where
  "move_TaskContext c = (c, \<lparr>currentTaskState = None, taskObservers = []\<rparr>)"

definition move_Task :: "(string \<Rightarrow> string) \<Rightarrow> Task \<Rightarrow> Task \<times> Task" where
  "move_Task residue t =
     (t, t\<lparr>taskTitle := residue (taskTitle t),
           taskDescription := residue (taskDescription t),
           taskContext := snd (move_TaskContext (taskContext t))\<rparr>)"

text \<open>\<^verbatim>\<open>build\<close> returns the \<^verbatim>\<open>Task\<close> and the builder after the call.\<close>

definition build :: "(string \<Rightarrow> string) \<Rightarrow> TaskManager \<Rightarrow> Task \<times> TaskManager" where
  "build residue m =
     (let (t, left) = move_Task residue (task m)
      in (t, m\<lparr>task := left\<rparr>))"

subsection \<open>Sequences of calls\<close>

text \<open>
  The public member functions of the builder other than \<^verbatim>\<open>build\<close>, as data, so that a
  property can speak of every sequence of calls. \<open>registered\<close> lists the observers
  that a sequence of calls passes to \<^verbatim>\<open>addTaskObserver\<close>.
\<close>

datatype builder_call =
    B_setDescription string
  | B_setPriority TaskPriority
  | B_setStartDate time_t
  | B_setEndDate time_t
  | B_addTaskObserver "TaskObserver option"

fun do_builder_call :: "TaskManager \<Rightarrow> builder_call \<Rightarrow> TaskManager" where
  "do_builder_call m (B_setDescription d) = TaskManager_setDescription m d"
| "do_builder_call m (B_setPriority p) = setPriority m p"
| "do_builder_call m (B_setStartDate d) = TaskManager_setStartDate m d"
| "do_builder_call m (B_setEndDate d) = TaskManager_setEndDate m d"
| "do_builder_call m (B_addTaskObserver ob) = TaskManager_addTaskObserver m ob"

definition builder_calls :: "TaskManager \<Rightarrow> builder_call list \<Rightarrow> TaskManager" where
  "builder_calls m cs = foldl do_builder_call m cs"

fun registered :: "builder_call list \<Rightarrow> TaskObserver option list" where
  "registered [] = []"
| "registered (B_addTaskObserver ob # cs) = ob # registered cs"
| "registered (c # cs) = registered cs"

text \<open>
  The life of a builder after a \<^verbatim>\<open>build\<close>: rounds of calls, each round ended by the
  next \<^verbatim>\<open>build\<close>. \<open>builds\<close> returns the tasks that these calls of \<^verbatim>\<open>build\<close> return,
  in order, and the builder left at the end.
\<close>

fun builds ::
  "(string \<Rightarrow> string) \<Rightarrow> TaskManager \<Rightarrow> builder_call list list \<Rightarrow> Task list \<times> TaskManager" where
  "builds residue m [] = ([], m)"
| "builds residue m (cs # css) =
     (let (t, m1) = build residue (builder_calls m cs);
          (ts, m2) = builds residue m1 css
      in (t # ts, m2))"

text \<open>The public member functions of \<^verbatim>\<open>Task\<close>, in the same way.\<close>

datatype task_call =
    T_setTitle string
  | T_setDescription string
  | T_setStartDate time_t
  | T_setEndDate time_t
  | T_setTaskPriority TaskPriority
  | T_addTaskObserver "TaskObserver option"
  | T_changeState "TaskState option"
  | T_print

fun do_task_call :: "(time_t \<Rightarrow> tm option) \<Rightarrow> Task \<Rightarrow> task_call \<Rightarrow> world \<Rightarrow> fault + Task \<times> world" where
  "do_task_call lt t (T_setTitle s) w = Inr (setTitle t s, w)"
| "do_task_call lt t (T_setDescription s) w = Inr (Task_setDescription t s, w)"
| "do_task_call lt t (T_setStartDate d) w = Inr (Task_setStartDate t d, w)"
| "do_task_call lt t (T_setEndDate d) w = Inr (Task_setEndDate t d, w)"
| "do_task_call lt t (T_setTaskPriority p) w = Inr (setTaskPriority t p, w)"
| "do_task_call lt t (T_addTaskObserver ob) w = Inr (Task_addTaskObserver t ob, w)"
| "do_task_call lt t (T_changeState s) w = changeState t s w"
| "do_task_call lt t T_print w = print lt t w"

fun task_calls :: "(time_t \<Rightarrow> tm option) \<Rightarrow> Task \<Rightarrow> task_call list \<Rightarrow> world \<Rightarrow> fault + Task \<times> world" where
  "task_calls lt t [] w = Inr (t, w)"
| "task_calls lt t (c # cs) w =
     (case do_task_call lt t c w of
        Inl f \<Rightarrow> Inl f
      | Inr (t', w') \<Rightarrow> task_calls lt t' cs w')"

fun task_registered :: "task_call list \<Rightarrow> TaskObserver option list" where
  "task_registered [] = []"
| "task_registered (T_addTaskObserver ob # cs) = ob # task_registered cs"
| "task_registered (c # cs) = task_registered cs"

subsection \<open>Terms of the properties\<close>

text \<open>The entry-action text of a state: the literal that its \<^verbatim>\<open>handle\<close> prints and
  broadcasts (lemma \<open>handle_entry_text\<close>).\<close>

fun entry_text :: "TaskState \<Rightarrow> string" where
  "entry_text CreateState = ''Task has been created...''"
| "entry_text InProgressState = ''Task has been changed to InProgress...''"
| "entry_text CompletedState = ''Task has been completed...''"
| "entry_text CancelledState = ''Task has been Cancelled...''"




text \<open>Sample values: an empty output, a task as the builder holds it after its
  constructor and \<^verbatim>\<open>setDescription\<close>, and a moved-from string left empty, as the
  common standard libraries leave it.\<close>

definition stdout0 :: world where
  "stdout0 = \<lparr>cout = [], updates = []\<rparr>"

definition t0 :: Task where
  "t0 = \<lparr>Id' = 1001, taskTitle = ''C++ Dev Task'', taskDescription = ''text'',
          startDate = 1700000000, endDate = 1700172800, taskPriority = LOW,
          taskContext = \<lparr>currentTaskState = Some CreateState, taskObservers = []\<rparr>\<rparr>"

definition left_empty :: "string \<Rightarrow> string" where
  "left_empty s = []"

text \<open>A \<^verbatim>\<open>localtime_s\<close> that knows three times, in UTC: 1700000000 is 14 November
  2023, 1700172800 is 16 November 2023 and 253402300800 is 1 January 10000. It fails
  on any other.\<close>

definition localtime0 :: "time_t \<Rightarrow> tm option" where
  "localtime0 x =
     (if x = 1700000000 then Some \<lparr>tm_year = 123, tm_mon = 10, tm_mday = 14\<rparr>
      else if x = 1700172800 then Some \<lparr>tm_year = 123, tm_mon = 10, tm_mday = 16\<rparr>
      else if x = 253402300800 then Some \<lparr>tm_year = 8100, tm_mon = 0, tm_mday = 1\<rparr>
      else None)"

section \<open>Properties\<close>

subsection \<open>Auxiliary facts\<close>

lemma handle_entry_text:
  "handle s c w = notify c (entry_text s) (emit (entry_text s @ endl) w)"
  by (cases s) simp_all

lemma updates_emit [simp]: "updates (emit s w) = updates w"
  by (simp add: emit_def)

lemma cout_emit [simp]: "cout (emit s w) = cout w @ s"
  by (simp add: emit_def)

lemma updates_Update [simp]: "updates (Update ob message w) = updates w @ [(ob, message)]"
  by (cases ob) simp_all

lemma cout_Update: "\<exists>line. cout (Update ob message w) = cout w @ line"
  by (cases ob) simp_all

lemma notify_loop_Some:
  "notify_loop (map Some obs) message w = Inr (foldl (\<lambda>w ob. Update ob message w) w obs)"
  by (induction obs arbitrary: w) simp_all

lemma updates_foldl_Update:
  "updates (foldl (\<lambda>w ob. Update ob message w) w obs) =
     updates w @ map (\<lambda>ob. (ob, message)) obs"
  by (induction obs arbitrary: w) simp_all

lemma cout_foldl_Update:
  "\<exists>lines. cout (foldl (\<lambda>w ob. Update ob message w) w obs) = cout w @ lines"
proof (induction obs arbitrary: w)
  case Nil
  show ?case by simp
next
  case (Cons ob obs)
  obtain line where l: "cout (Update ob message w) = cout w @ line"
    using cout_Update by blast
  obtain lines where "cout (foldl (\<lambda>w ob. Update ob message w) (Update ob message w) obs)
      = cout (Update ob message w) @ lines"
    using Cons.IH by blast
  with l show ?case by simp
qed

lemma notify_loop_None:
  "None \<in> set obs \<Longrightarrow> notify_loop obs message w = Inl NullObserver"
proof (induction obs arbitrary: w)
  case Nil
  then show ?case by simp
next
  case (Cons a obs)
  then show ?case by (cases a) auto
qed

lemma non_null_map_Some: "None \<notin> set xs \<Longrightarrow> xs = map Some (map the xs)"
  by (induction xs) auto

lemma changeState_Some:
  assumes "taskObservers (taskContext t) = map Some obs"
  shows "changeState t (Some X) w =
            Inr (t\<lparr>taskContext := (taskContext t)\<lparr>currentTaskState := Some X\<rparr>\<rparr>,
                 foldl (\<lambda>w ob. Update ob (entry_text X) w) (emit (entry_text X @ endl) w) obs)"
  using assms
  by (simp add: changeState_def executeState_def setState_def handle_entry_text notify_def
      notify_loop_Some)

lemma changeState_non_null:
  assumes "None \<notin> set (taskObservers (taskContext t))"
  shows "changeState t (Some X) w =
            Inr (t\<lparr>taskContext := (taskContext t)\<lparr>currentTaskState := Some X\<rparr>\<rparr>,
                 foldl (\<lambda>w ob. Update ob (entry_text X) w) (emit (entry_text X @ endl) w)
                   (map the (taskObservers (taskContext t))))"
  by (rule changeState_Some [OF non_null_map_Some [OF assms]])

lemma changeState_frame:
  assumes "changeState t newState w = Inr (t', w')"
  shows "t' = t\<lparr>taskContext := (taskContext t)\<lparr>currentTaskState := newState\<rparr>\<rparr>"
proof (cases newState)
  case None
  with assms show ?thesis
    by (simp add: changeState_def executeState_def setState_def)
next
  case (Some s)
  with assms show ?thesis
    by (auto simp: changeState_def executeState_def setState_def handle_entry_text notify_def
        split: sum.splits)
qed

lemma taskObservers_foldl_add:
  "taskObservers (taskContext (foldl Task_addTaskObserver t obs)) =
     taskObservers (taskContext t) @ obs"
  by (induction obs arbitrary: t)
     (simp_all add: Task_addTaskObserver_def TaskContext_addTaskObserver_def)

lemma notify_loop_Inr_non_null:
  "notify_loop obs message w = Inr w' \<Longrightarrow> None \<notin> set obs"
  using notify_loop_None by fastforce

lemma changeState_Inr_non_null:
  assumes "changeState t (Some S) w = Inr (t', w')"
  shows "None \<notin> set (taskObservers (taskContext t))"
proof
  assume "None \<in> set (taskObservers (taskContext t))"
  then have "changeState t (Some S) w = Inl NullObserver"
    by (simp add: changeState_def executeState_def setState_def handle_entry_text notify_def
        notify_loop_None)
  with assms show False by simp
qed

lemma prefix_updates_foldl_Update:
  "prefix (updates w) (updates (foldl (\<lambda>w ob. Update ob message w) (emit s w) obs))"
  by (simp add: updates_foldl_Update)

lemma prefix_cout_foldl_Update:
  "prefix (cout w) (cout (foldl (\<lambda>w ob. Update ob message w) (emit s w) obs))"
proof -
  obtain lines where "cout (foldl (\<lambda>w ob. Update ob message w) (emit s w) obs)
      = cout (emit s w) @ lines"
    using cout_foldl_Update by blast
  then show ?thesis by simp
qed

lemma builder_add_registry:
  "taskObservers (taskContext (task (foldl TaskManager_addTaskObserver m obs))) =
     taskObservers (taskContext (task m)) @ obs"
  by (induction obs arbitrary: m)
     (simp_all add: TaskManager_addTaskObserver_def Task_addTaskObserver_def
        TaskContext_addTaskObserver_def)

lemma fst_build [simp]: "fst (build residue m) = task m"
  by (simp add: build_def move_Task_def)

lemma count_list_map_pair:
  "count_list (map (\<lambda>ob. (the ob, message)) xs) (ob, message) = count_list (map the xs) ob"
  by (induction xs) simp_all

lemma count_list_map_the:
  "None \<notin> set xs \<Longrightarrow> count_list (map the xs) ob = count_list xs (Some ob)"
  by (induction xs) auto

lemma new_Task_result:
  "new_Task id' title priority now w =
     Inr (\<lparr>Id' = id', taskTitle = title, taskDescription = [],
           startDate = now, endDate = now + 172800, taskPriority = priority,
           taskContext = \<lparr>currentTaskState = Some CreateState, taskObservers = []\<rparr>\<rparr>,
          emit (''Task has been created...'' @ endl) w)"
  by (simp add: new_Task_def new_TaskContext_def executeState_def notify_def)

lemma new_TaskManager_result:
  "new_TaskManager id' title priority now w =
     Inr (\<lparr>task = \<lparr>Id' = id', taskTitle = title, taskDescription = [],
           startDate = now, endDate = now + 172800, taskPriority = priority,
           taskContext = \<lparr>currentTaskState = Some CreateState, taskObservers = []\<rparr>\<rparr>\<rparr>,
          emit (''Task has been created...'' @ endl) w)"
  by (simp add: new_TaskManager_def new_Task_result)

lemma do_builder_call_state [simp]:
  "currentTaskState (taskContext (task (do_builder_call m c))) =
     currentTaskState (taskContext (task m))"
  by (cases c)
     (simp_all add: TaskManager_setDescription_def setPriority_def TaskManager_setStartDate_def
        TaskManager_setEndDate_def TaskManager_addTaskObserver_def Task_addTaskObserver_def
        TaskContext_addTaskObserver_def)

lemma builder_calls_state [simp]:
  "currentTaskState (taskContext (task (builder_calls m cs))) =
     currentTaskState (taskContext (task m))"
  unfolding builder_calls_def by (induction cs arbitrary: m) simp_all

lemma do_builder_call_observers:
  "taskObservers (taskContext (task (do_builder_call m c))) =
     taskObservers (taskContext (task m)) @ registered [c]"
  by (cases c)
     (simp_all add: TaskManager_setDescription_def setPriority_def TaskManager_setStartDate_def
        TaskManager_setEndDate_def TaskManager_addTaskObserver_def Task_addTaskObserver_def
        TaskContext_addTaskObserver_def)

lemma registered_Cons: "registered (c # cs) = registered [c] @ registered cs"
  by (cases c) simp_all

lemma builder_calls_observers:
  "taskObservers (taskContext (task (builder_calls m cs))) =
     taskObservers (taskContext (task m)) @ registered cs"
  unfolding builder_calls_def
proof (induction cs arbitrary: m)
  case Nil
  show ?case by simp
next
  case (Cons c cs)
  have "taskObservers (taskContext (task (foldl do_builder_call (do_builder_call m c) cs))) =
      taskObservers (taskContext (task (do_builder_call m c))) @ registered cs"
    by (rule Cons.IH)
  then show ?case
    using registered_Cons [of c cs] by (simp add: do_builder_call_observers)
qed

lemma print_frame:
  assumes "print lt t w = Inr (t', w')"
  shows "t' = t \<and> updates w' = updates w \<and> prefix (cout w) (cout w')"
  using assms
  by (auto simp: print_def Let_def emit_def simp del: strftime.simps
      split: option.splits if_splits)

lemma do_task_call_observers:
  assumes "do_task_call lt t c w = Inr (t', w')"
  shows "taskObservers (taskContext t') = taskObservers (taskContext t) @ task_registered [c]"
proof (cases c)
  case (T_changeState s)
  with assms have "t' = t\<lparr>taskContext := (taskContext t)\<lparr>currentTaskState := s\<rparr>\<rparr>"
    by (simp add: changeState_frame)
  with T_changeState show ?thesis by simp
next
  case T_print
  with assms have "t' = t" by (simp add: print_frame)
  with T_print show ?thesis by simp
qed (use assms in \<open>auto simp: setTitle_def Task_setDescription_def Task_setStartDate_def
        Task_setEndDate_def setTaskPriority_def Task_addTaskObserver_def
        TaskContext_addTaskObserver_def\<close>)

lemma task_registered_Cons:
  "task_registered (c # cs) = task_registered [c] @ task_registered cs"
  by (cases c) simp_all

lemma task_calls_observers:
  "task_calls lt t cs w = Inr (t', w') \<Longrightarrow>
     taskObservers (taskContext t') = taskObservers (taskContext t) @ task_registered cs"
proof (induction cs arbitrary: t w)
  case Nil
  then show ?case by simp
next
  case (Cons c cs)
  from Cons.prems obtain t1 w1 where
    step: "do_task_call lt t c w = Inr (t1, w1)" and rest: "task_calls lt t1 cs w1 = Inr (t', w')"
    by (auto split: sum.splits)
  have "taskObservers (taskContext t') = taskObservers (taskContext t1) @ task_registered cs"
    using rest by (rule Cons.IH)
  then show ?case
    using do_task_call_observers [OF step] task_registered_Cons [of c cs] by simp
qed

lemma build_left:
  "task (snd (build residue m)) =
     (task m)\<lparr>taskTitle := residue (taskTitle (task m)),
              taskDescription := residue (taskDescription (task m)),
              taskContext := \<lparr>currentTaskState = None, taskObservers = []\<rparr>\<rparr>"
  by (simp add: build_def move_Task_def move_TaskContext_def)

















lemma fst_builds_Cons:
  "fst (builds residue m (cs # css)) =
     task (builder_calls m cs) # fst (builds residue (snd (build residue (builder_calls m cs))) css)"
  by (simp add: case_prod_unfold Let_def)

lemma builds_emptied:
  assumes "currentTaskState (taskContext (task m)) = None"
    and "taskObservers (taskContext (task m)) = []"
  shows "map (\<lambda>t. currentTaskState (taskContext t)) (fst (builds residue m css)) =
           replicate (length css) None \<and>
         map (\<lambda>t. taskObservers (taskContext t)) (fst (builds residue m css)) =
           map registered css"
  using assms
proof (induction css arbitrary: m)
  case Nil
  show ?case by simp
next
  case (Cons cs css)
  let ?m1 = "snd (build residue (builder_calls m cs))"
  have "currentTaskState (taskContext (task ?m1)) = None"
    and "taskObservers (taskContext (task ?m1)) = []"
    by (simp_all add: build_left)
  then have "map (\<lambda>t. currentTaskState (taskContext t)) (fst (builds residue ?m1 css)) =
           replicate (length css) None \<and>
         map (\<lambda>t. taskObservers (taskContext t)) (fst (builds residue ?m1 css)) =
           map registered css"
    by (rule Cons.IH)
  then show ?case
    using Cons.prems by (simp add: fst_builds_Cons builder_calls_observers del: builds.simps)
qed

subsection \<open>The state-label query\<close>

text \<open>
  C7. \<^verbatim>\<open>TaskContext::getCurrentState\<close> returns the label of the current state, one of
  Created, InProgress, Completed and Cancelled, when the state pointer is set, and the
  text Invalid State when it is null. The function is total: it has no failing branch.
\<close>

theorem C7_getCurrentState_label_or_sentinel:
  "(\<forall>s. currentTaskState c = Some s \<longrightarrow>
       getCurrentState c =
         (case s of CreateState \<Rightarrow> ''Created'' | InProgressState \<Rightarrow> ''InProgress''
                  | CompletedState \<Rightarrow> ''Completed'' | CancelledState \<Rightarrow> ''Cancelled'')) \<and>
   (currentTaskState c = None \<longrightarrow> getCurrentState c = ''Invalid State'')"
  by (auto simp: getCurrentState_def split: TaskState.splits)

theorem C7_witness:
  "getCurrentState \<lparr>currentTaskState = Some CompletedState, taskObservers = []\<rparr> = ''Completed'' \<and>
   getCurrentState \<lparr>currentTaskState = None, taskObservers = []\<rparr> = ''Invalid State''"
  using C7_getCurrentState_label_or_sentinel
          [of "\<lparr>currentTaskState = Some CompletedState, taskObservers = []\<rparr>"]
        C7_getCurrentState_label_or_sentinel
          [of "\<lparr>currentTaskState = None, taskObservers = []\<rparr>"]
  by simp

subsection \<open>Transitions\<close>

text \<open>
  C3. From any current state S, \<^verbatim>\<open>setState\<close> to any state T leaves T as the current
  state, and \<^verbatim>\<open>changeState\<close> to T returns with T as the current state: no transition
  is refused, Completed to Created included. The registered observers are non-null,
  as the broadcast of \<^verbatim>\<open>changeState\<close> calls through each of them.
\<close>

theorem C3_any_transition_accepted:
  assumes "currentTaskState (taskContext t) = Some S"
    and "None \<notin> set (taskObservers (taskContext t))"
  shows "currentTaskState (setState (taskContext t) (Some T)) = Some T \<and>
         (\<exists>t' w'. changeState t (Some T) w = Inr (t', w') \<and>
                  currentTaskState (taskContext t') = Some T)"
  using changeState_non_null [OF assms(2), of T w] by (simp add: setState_def)

theorem C3_witness:
  "currentTaskState (setState (taskContext (t0\<lparr>taskContext := \<lparr>currentTaskState = Some CompletedState,
       taskObservers = [Some (SMSTaskObserver ''+1-555'')]\<rparr>\<rparr>)) (Some CreateState)) = Some CreateState \<and>
   (\<exists>t' w'. changeState (t0\<lparr>taskContext := \<lparr>currentTaskState = Some CompletedState,
                 taskObservers = [Some (SMSTaskObserver ''+1-555'')]\<rparr>\<rparr>) (Some CreateState) stdout0 = Inr (t', w') \<and>
            currentTaskState (taskContext t') = Some CreateState)"
  using C3_any_transition_accepted
     [of "t0\<lparr>taskContext := \<lparr>currentTaskState = Some CompletedState,
                 taskObservers = [Some (SMSTaskObserver ''+1-555'')]\<rparr>\<rparr>" CompletedState CreateState stdout0]
  by simp

text \<open>
  C10. \<^verbatim>\<open>changeState\<close> to a state S, when it returns, has changed the current state
  of the owned context to S and nothing else of the task: the id, the title, the
  description, the two dates, the priority and the list of observers are as before.
  Its only other effect is output: the text on \<^verbatim>\<open>cout\<close> and the trace of \<^verbatim>\<open>Update\<close>
  calls are extended, nothing of them is rewritten.
\<close>

theorem C10_changeState_frame:
  assumes "changeState t (Some S) w = Inr (t', w')"
  shows "Id' t' = Id' t \<and> taskTitle t' = taskTitle t \<and>
         taskDescription t' = taskDescription t \<and>
         startDate t' = startDate t \<and> endDate t' = endDate t \<and>
         taskPriority t' = taskPriority t \<and>
         taskObservers (taskContext t') = taskObservers (taskContext t) \<and>
         currentTaskState (taskContext t') = Some S \<and>
         prefix (cout w) (cout w') \<and> prefix (updates w) (updates w')"
proof -
  have t': "t' = t\<lparr>taskContext := (taskContext t)\<lparr>currentTaskState := Some S\<rparr>\<rparr>"
    using assms by (rule changeState_frame)
  have "None \<notin> set (taskObservers (taskContext t))"
    using assms by (rule changeState_Inr_non_null)
  then have "w' = foldl (\<lambda>w ob. Update ob (entry_text S) w) (emit (entry_text S @ endl) w)
                   (map the (taskObservers (taskContext t)))"
    using assms changeState_non_null [of t S w] by simp
  then have "prefix (cout w) (cout w')" and "prefix (updates w) (updates w')"
    by (simp_all only: prefix_cout_foldl_Update prefix_updates_foldl_Update)
  with t' show ?thesis by simp
qed

theorem C10_witness:
  "changeState (Task_addTaskObserver t0 (Some (SMSTaskObserver ''+1-555''))) (Some CompletedState) stdout0 =
     Inr (Task_addTaskObserver t0 (Some (SMSTaskObserver ''+1-555''))
            \<lparr>taskContext := \<lparr>currentTaskState = Some CompletedState,
                             taskObservers = [Some (SMSTaskObserver ''+1-555'')]\<rparr>\<rparr>,
          Update (SMSTaskObserver ''+1-555'') ''Task has been completed...''
            (emit (''Task has been completed...'' @ endl) stdout0)) \<and>
   taskTitle (Task_addTaskObserver t0 (Some (SMSTaskObserver ''+1-555''))
            \<lparr>taskContext := \<lparr>currentTaskState = Some CompletedState,
                             taskObservers = [Some (SMSTaskObserver ''+1-555'')]\<rparr>\<rparr>) = ''C++ Dev Task''"
proof -
  have h: "changeState (Task_addTaskObserver t0 (Some (SMSTaskObserver ''+1-555''))) (Some CompletedState) stdout0 =
     Inr (Task_addTaskObserver t0 (Some (SMSTaskObserver ''+1-555''))
            \<lparr>taskContext := \<lparr>currentTaskState = Some CompletedState,
                             taskObservers = [Some (SMSTaskObserver ''+1-555'')]\<rparr>\<rparr>,
          Update (SMSTaskObserver ''+1-555'') ''Task has been completed...''
            (emit (''Task has been completed...'' @ endl) stdout0))"
    by (simp add: changeState_def executeState_def setState_def notify_def t0_def
        Task_addTaskObserver_def TaskContext_addTaskObserver_def)
  show ?thesis
    using h C10_changeState_frame [OF h]
    by (simp add: t0_def Task_addTaskObserver_def)
qed

subsection \<open>Broadcast\<close>

text \<open>
  C1. Start from a builder whose task holds the non-null observers \<open>pre\<close>. Register
  the observers \<open>obs1\<close> through the builder, build, register the observers \<open>obs2\<close>
  through the task, then call \<^verbatim>\<open>changeState\<close> to a state X once. The call returns, and
  the \<^verbatim>\<open>Update\<close> calls it makes are exactly one per registration, in the order of
  registration, each with the entry-action text of X; an observer registered twice is
  called twice.
\<close>

theorem C1_each_observer_notified_once_in_order:
  assumes "taskObservers (taskContext (task m)) = map Some pre"
  shows "\<exists>t' w'.
           changeState
             (foldl Task_addTaskObserver
                (fst (build residue (foldl TaskManager_addTaskObserver m (map Some obs1))))
                (map Some obs2))
             (Some X) w = Inr (t', w') \<and>
           updates w' = updates w @ map (\<lambda>ob. (ob, entry_text X)) (pre @ obs1 @ obs2)"
proof -
  let ?t = "foldl Task_addTaskObserver
              (fst (build residue (foldl TaskManager_addTaskObserver m (map Some obs1))))
              (map Some obs2)"
  have "taskObservers (taskContext ?t) = map Some (pre @ obs1 @ obs2)"
    using assms by (simp add: taskObservers_foldl_add builder_add_registry)
  then show ?thesis
    using changeState_Some [of ?t "pre @ obs1 @ obs2" X w]
    by (simp add: updates_foldl_Update)
qed


theorem C1_witness:
  "\<exists>t' w'.
     changeState
       (foldl Task_addTaskObserver
          (fst (build left_empty (foldl TaskManager_addTaskObserver \<lparr>task = t0\<rparr>
             (map Some [EmailTaskObserver ''a@x.com'', SMSTaskObserver ''+1-555'']))))
          (map Some []))
       (Some InProgressState) stdout0 = Inr (t', w') \<and>
     updates w' =
       [(EmailTaskObserver ''a@x.com'', ''Task has been changed to InProgress...''),
        (SMSTaskObserver ''+1-555'', ''Task has been changed to InProgress...'')]"
  using C1_each_observer_notified_once_in_order
     [of "\<lparr>task = t0\<rparr>" "[]" left_empty
         "[EmailTaskObserver ''a@x.com'', SMSTaskObserver ''+1-555'']" "[]"
         InProgressState stdout0]
  by (simp add: t0_def stdout0_def)

text \<open>
  C4. Two calls of \<^verbatim>\<open>changeState\<close> in a row to the same state S both run the entry
  action: each prints the text of S and calls \<^verbatim>\<open>Update\<close> once per registration, so
  every registered observer is called twice per registration over the two calls.
\<close>

theorem C4_same_state_twice_notifies_twice:
  assumes "None \<notin> set (taskObservers (taskContext t))"
  shows "\<exists>t1 w1 t2 w2.
           changeState t (Some S) w = Inr (t1, w1) \<and>
           changeState t1 (Some S) w1 = Inr (t2, w2) \<and>
           updates w1 = updates w @
             map (\<lambda>ob. (the ob, entry_text S)) (taskObservers (taskContext t)) \<and>
           updates w2 = updates w1 @
             map (\<lambda>ob. (the ob, entry_text S)) (taskObservers (taskContext t)) \<and>
           (\<forall>ob. count_list (drop (length (updates w)) (updates w2)) (ob, entry_text S) =
                   2 * count_list (taskObservers (taskContext t)) (Some ob)) \<and>
           (\<exists>lines1 lines2.
              cout w2 = cout w @ entry_text S @ endl @ lines1 @ entry_text S @ endl @ lines2)"
proof -
  let ?obs = "map the (taskObservers (taskContext t))"
  let ?t1 = "t\<lparr>taskContext := (taskContext t)\<lparr>currentTaskState := Some S\<rparr>\<rparr>"
  let ?w1 = "foldl (\<lambda>w ob. Update ob (entry_text S) w) (emit (entry_text S @ endl) w) ?obs"
  let ?w2 = "foldl (\<lambda>w ob. Update ob (entry_text S) w) (emit (entry_text S @ endl) ?w1) ?obs"
  have c1: "changeState t (Some S) w = Inr (?t1, ?w1)"
    using assms by (rule changeState_non_null)
  have "None \<notin> set (taskObservers (taskContext ?t1))"
    using assms by simp
  then have "changeState ?t1 (Some S) ?w1 =
      Inr (?t1\<lparr>taskContext := (taskContext ?t1)\<lparr>currentTaskState := Some S\<rparr>\<rparr>,
           foldl (\<lambda>w ob. Update ob (entry_text S) w) (emit (entry_text S @ endl) ?w1)
             (map the (taskObservers (taskContext ?t1))))"
    by (rule changeState_non_null)
  then have c2: "changeState ?t1 (Some S) ?w1 = Inr (?t1, ?w2)"
    by simp
  have u1: "updates ?w1 = updates w @
      map (\<lambda>ob. (the ob, entry_text S)) (taskObservers (taskContext t))"
    by (simp add: updates_foldl_Update comp_def)
  have u2: "updates ?w2 = updates ?w1 @
      map (\<lambda>ob. (the ob, entry_text S)) (taskObservers (taskContext t))"
    by (simp add: updates_foldl_Update comp_def)
  have cnt: "count_list (drop (length (updates w)) (updates ?w2)) (ob, entry_text S) =
      2 * count_list (taskObservers (taskContext t)) (Some ob)" for ob
    using assms by (simp add: u2 u1 count_list_map_pair count_list_map_the)
  obtain lines1 where l1: "cout ?w1 = cout (emit (entry_text S @ endl) w) @ lines1"
    using cout_foldl_Update by blast
  obtain lines2 where l2: "cout ?w2 = cout (emit (entry_text S @ endl) ?w1) @ lines2"
    using cout_foldl_Update by blast
  have co: "cout ?w2 = cout w @ entry_text S @ endl @ lines1 @ entry_text S @ endl @ lines2"
    using l1 l2 by simp
  from c1 c2 u1 u2 cnt co show ?thesis by blast
qed

theorem C4_witness:
  "\<exists>t1 w1 t2 w2.
     changeState (Task_addTaskObserver t0 (Some (EmailTaskObserver ''a@x.com'')))
       (Some CancelledState) stdout0 = Inr (t1, w1) \<and>
     changeState t1 (Some CancelledState) w1 = Inr (t2, w2) \<and>
     updates w2 =
       [(EmailTaskObserver ''a@x.com'', ''Task has been Cancelled...''),
        (EmailTaskObserver ''a@x.com'', ''Task has been Cancelled...'')]"
proof -
  let ?t = "Task_addTaskObserver t0 (Some (EmailTaskObserver ''a@x.com''))"
  have obs: "taskObservers (taskContext ?t) = [Some (EmailTaskObserver ''a@x.com'')]"
    by (simp add: t0_def Task_addTaskObserver_def TaskContext_addTaskObserver_def)
  then have "None \<notin> set (taskObservers (taskContext ?t))"
    by simp
  from C4_same_state_twice_notifies_twice [OF this, of CancelledState stdout0]
  obtain t1 w1 t2 w2 where
    c1: "changeState ?t (Some CancelledState) stdout0 = Inr (t1, w1)" and
    c2: "changeState t1 (Some CancelledState) w1 = Inr (t2, w2)" and
    u1: "updates w1 = updates stdout0 @
           map (\<lambda>ob. (the ob, entry_text CancelledState)) (taskObservers (taskContext ?t))" and
    u2: "updates w2 = updates w1 @
           map (\<lambda>ob. (the ob, entry_text CancelledState)) (taskObservers (taskContext ?t))"
    by blast
  have "updates w2 =
       [(EmailTaskObserver ''a@x.com'', ''Task has been Cancelled...''),
        (EmailTaskObserver ''a@x.com'', ''Task has been Cancelled...'')]"
    using u1 u2 by (simp add: obs stdout0_def)
  with c1 c2 show ?thesis by blast
qed

subsection \<open>Construction\<close>

text \<open>
  C2. The constructor of the builder always returns. It leaves the task in the state
  Created with no observer, and it has run the entry action of Created by then: the
  text is on \<^verbatim>\<open>cout\<close> and, the list of observers being empty, no \<^verbatim>\<open>Update\<close> call was
  made. Whatever is called on the builder afterwards, the task that \<^verbatim>\<open>build\<close> returns
  is in the state Created and holds the observers registered since, none of which was
  called with the text of the construction.
\<close>

theorem C2_construction_enters_Created_before_registration:
  "\<exists>m w'. new_TaskManager id' title priority now w = Inr (m, w') \<and>
     currentTaskState (taskContext (task m)) = Some CreateState \<and>
     taskObservers (taskContext (task m)) = [] \<and>
     cout w' = cout w @ ''Task has been created...'' @ endl \<and>
     updates w' = updates w \<and>
     (\<forall>cs. currentTaskState (taskContext (fst (build residue (builder_calls m cs)))) =
             Some CreateState \<and>
           taskObservers (taskContext (fst (build residue (builder_calls m cs)))) =
             registered cs)"
  by (simp add: new_TaskManager_result builder_calls_observers)

subsection \<open>Registration\<close>



text \<open>
  C6. No call on a task removes or reorders an observer: after any sequence of calls
  of its public member functions that returns, the list of observers is the list
  before followed by the observers registered by the sequence, in the order and with
  the repetitions of the registrations. The same holds for the calls on the builder,
  and \<^verbatim>\<open>build\<close> hands the whole list to the task it returns.
\<close>

theorem C6_observer_list_append_only:
  assumes "task_calls lt t cs w = Inr (t', w')"
  shows "taskObservers (taskContext t') = taskObservers (taskContext t) @ task_registered cs \<and>
         prefix (taskObservers (taskContext t)) (taskObservers (taskContext t')) \<and>
         taskObservers (taskContext (task (builder_calls m bs))) =
           taskObservers (taskContext (task m)) @ registered bs \<and>
         taskObservers (taskContext (fst (build residue m))) = taskObservers (taskContext (task m))"
  using task_calls_observers [OF assms] by (simp add: builder_calls_observers)

theorem C6_witness:
  "task_calls localtime0 t0
     [T_addTaskObserver (Some (EmailTaskObserver ''a@x.com'')), T_changeState (Some InProgressState),
      T_addTaskObserver (Some (EmailTaskObserver ''a@x.com'')), T_setTitle ''New'',
      T_addTaskObserver (Some (SMSTaskObserver ''+1-555'')), T_changeState (Some CompletedState)]
     stdout0 =
   Inr (t0\<lparr>taskTitle := ''New'',
           taskContext := \<lparr>currentTaskState = Some CompletedState,
             taskObservers = [Some (EmailTaskObserver ''a@x.com''),
                              Some (EmailTaskObserver ''a@x.com''),
                              Some (SMSTaskObserver ''+1-555'')]\<rparr>\<rparr>,
        Update (SMSTaskObserver ''+1-555'') ''Task has been completed...''
       (Update (EmailTaskObserver ''a@x.com'') ''Task has been completed...''
       (Update (EmailTaskObserver ''a@x.com'') ''Task has been completed...''
       (emit (''Task has been completed...'' @ endl)
       (Update (EmailTaskObserver ''a@x.com'') ''Task has been changed to InProgress...''
       (emit (''Task has been changed to InProgress...'' @ endl) stdout0)))))) \<and>
   prefix (taskObservers (taskContext t0))
     [Some (EmailTaskObserver ''a@x.com''), Some (EmailTaskObserver ''a@x.com''),
      Some (SMSTaskObserver ''+1-555'')]"
proof -
  have h: "task_calls localtime0 t0
     [T_addTaskObserver (Some (EmailTaskObserver ''a@x.com'')), T_changeState (Some InProgressState),
      T_addTaskObserver (Some (EmailTaskObserver ''a@x.com'')), T_setTitle ''New'',
      T_addTaskObserver (Some (SMSTaskObserver ''+1-555'')), T_changeState (Some CompletedState)]
     stdout0 =
   Inr (t0\<lparr>taskTitle := ''New'',
           taskContext := \<lparr>currentTaskState = Some CompletedState,
             taskObservers = [Some (EmailTaskObserver ''a@x.com''),
                              Some (EmailTaskObserver ''a@x.com''),
                              Some (SMSTaskObserver ''+1-555'')]\<rparr>\<rparr>,
        Update (SMSTaskObserver ''+1-555'') ''Task has been completed...''
       (Update (EmailTaskObserver ''a@x.com'') ''Task has been completed...''
       (Update (EmailTaskObserver ''a@x.com'') ''Task has been completed...''
       (emit (''Task has been completed...'' @ endl)
       (Update (EmailTaskObserver ''a@x.com'') ''Task has been changed to InProgress...''
       (emit (''Task has been changed to InProgress...'' @ endl) stdout0))))))"
    by (simp add: t0_def Task_addTaskObserver_def TaskContext_addTaskObserver_def
        changeState_def setState_def executeState_def notify_def setTitle_def Let_def
        del: Update.simps)
  show ?thesis
    using h C6_observer_list_append_only [OF h, of "\<lparr>task = t0\<rparr>" "[]" left_empty]
    by (simp add: t0_def)
qed

subsection \<open>Building\<close>

text \<open>
  C5, as amended. \<^verbatim>\<open>build\<close> returns the task that the builder holds and leaves a
  moved-from task in the builder. However many times \<^verbatim>\<open>build\<close> is called on the same
  builder afterwards, with whatever calls of the setters in between (the rounds
  \<open>css\<close>), each of these later calls returns a task without a state, whose state
  query answers Invalid State, and whose observers are exactly those registered on the
  builder since the call of \<^verbatim>\<open>build\<close> before it: none, when nothing was registered in
  between. When the first task has a state, none of the later tasks is equal to it; and
  the task of a builder has a state until the first \<^verbatim>\<open>build\<close>, whatever is called on
  the builder after its constructor.
\<close>

theorem C5_build_moves_the_task_out:
  "fst (build residue m) = task m \<and>
   map (\<lambda>t. currentTaskState (taskContext t))
       (fst (builds residue (snd (build residue m)) css)) = replicate (length css) None \<and>
   map (\<lambda>t. getCurrentState (taskContext t))
       (fst (builds residue (snd (build residue m)) css)) =
     replicate (length css) ''Invalid State'' \<and>
   map (\<lambda>t. taskObservers (taskContext t))
       (fst (builds residue (snd (build residue m)) css)) = map registered css \<and>
   (currentTaskState (taskContext (task m)) \<noteq> None \<longrightarrow>
      task m \<notin> set (fst (builds residue (snd (build residue m)) css))) \<and>
   (\<exists>m0 w'. new_TaskManager id' title priority now w = Inr (m0, w') \<and>
      (\<forall>cs. currentTaskState (taskContext (task (builder_calls m0 cs))) = Some CreateState))"
proof -
  let ?later = "fst (builds residue (snd (build residue m)) css)"
  have "currentTaskState (taskContext (task (snd (build residue m)))) = None"
    and "taskObservers (taskContext (task (snd (build residue m)))) = []"
    by (simp_all add: build_left)
  then have em: "map (\<lambda>t. currentTaskState (taskContext t)) ?later = replicate (length css) None \<and>
      map (\<lambda>t. taskObservers (taskContext t)) ?later = map registered css"
    by (rule builds_emptied)
  then have st: "map (\<lambda>t. currentTaskState (taskContext t)) ?later = replicate (length css) None"
    and ob: "map (\<lambda>t. taskObservers (taskContext t)) ?later = map registered css"
    by simp_all
  have none: "currentTaskState (taskContext t) = None" if "t \<in> set ?later" for t
  proof -
    from that have "currentTaskState (taskContext t) \<in>
        set (map (\<lambda>t. currentTaskState (taskContext t)) ?later)"
      by (simp only: set_map) (rule imageI)
    then show ?thesis
      unfolding st by simp
  qed
  have la: "map (\<lambda>t. getCurrentState (taskContext t)) ?later =
      replicate (length css) ''Invalid State''"
  proof -
    have "map (\<lambda>t. getCurrentState (taskContext t)) ?later = map (\<lambda>t. ''Invalid State'') ?later"
      by (rule map_cong) (simp_all add: getCurrentState_def none)
    also have "\<dots> = replicate (length ?later) ''Invalid State''"
      by (simp add: map_replicate_const)
    also have "length ?later = length css"
      using arg_cong [OF st, of length] by simp
    finally show ?thesis .
  qed
  have ne: "currentTaskState (taskContext (task m)) \<noteq> None \<longrightarrow> task m \<notin> set ?later"
    by (auto dest: none)
  have co: "\<exists>m0 w'. new_TaskManager id' title priority now w = Inr (m0, w') \<and>
      (\<forall>cs. currentTaskState (taskContext (task (builder_calls m0 cs))) = Some CreateState)"
    by (simp add: new_TaskManager_result)
  from st la ob ne co show ?thesis
    by (simp only: fst_build simp_thms)
qed

theorem C5_witness:
  "fst (build left_empty \<lparr>task = Task_addTaskObserver t0 (Some (EmailTaskObserver ''a@x.com''))\<rparr>) =
     Task_addTaskObserver t0 (Some (EmailTaskObserver ''a@x.com'')) \<and>
   map (\<lambda>t. getCurrentState (taskContext t))
     (fst (builds left_empty
        (snd (build left_empty
           \<lparr>task = Task_addTaskObserver t0 (Some (EmailTaskObserver ''a@x.com''))\<rparr>))
        [[B_addTaskObserver (Some (SMSTaskObserver ''+1-555''))], []])) =
     [''Invalid State'', ''Invalid State''] \<and>
   map (\<lambda>t. taskObservers (taskContext t))
     (fst (builds left_empty
        (snd (build left_empty
           \<lparr>task = Task_addTaskObserver t0 (Some (EmailTaskObserver ''a@x.com''))\<rparr>))
        [[B_addTaskObserver (Some (SMSTaskObserver ''+1-555''))], []])) =
     [[Some (SMSTaskObserver ''+1-555'')], []] \<and>
   Task_addTaskObserver t0 (Some (EmailTaskObserver ''a@x.com'')) \<notin>
     set (fst (builds left_empty
        (snd (build left_empty
           \<lparr>task = Task_addTaskObserver t0 (Some (EmailTaskObserver ''a@x.com''))\<rparr>))
        [[B_addTaskObserver (Some (SMSTaskObserver ''+1-555''))], []]))"
proof -
  have h: "currentTaskState (taskContext (task
      \<lparr>task = Task_addTaskObserver t0 (Some (EmailTaskObserver ''a@x.com''))\<rparr>)) \<noteq> None"
    by (simp add: t0_def Task_addTaskObserver_def TaskContext_addTaskObserver_def)
  show ?thesis
    using h C5_build_moves_the_task_out
      [of left_empty "\<lparr>task = Task_addTaskObserver t0 (Some (EmailTaskObserver ''a@x.com''))\<rparr>"
          "[[B_addTaskObserver (Some (SMSTaskObserver ''+1-555''))], []]"]
    by (simp add: numeral_2_eq_2)
qed

text \<open>The claim as stated fails: an observer registered between the two calls of
  \<^verbatim>\<open>build\<close> is in the second task.\<close>

theorem C5_counterexample:
  "taskObservers (taskContext (fst (build left_empty
      (TaskManager_addTaskObserver
         (snd (build left_empty
            (fst (projr (new_TaskManager 1001 ''C++ Dev Task'' LOW 1700000000 stdout0)))))
         (Some (EmailTaskObserver ''a@x.com'')))))) \<noteq> []"
  by (simp add: new_TaskManager_result build_left TaskManager_addTaskObserver_def
      Task_addTaskObserver_def TaskContext_addTaskObserver_def)

subsection \<open>Rendering\<close>




end
